theory Spec2Isabelle
  imports Main
begin

section \<open>Build log processing (src/build.py)\<close>

text \<open>
  The module wraps one CodeBuild build-status event in a \<open>Build\<close> object. The object
  fetches the build's details lazily from the CodeBuild client, resolves batch builds,
  copies CloudWatch log events into an S3 bucket and formats a retrieval URL.

  Modelling decisions.
  \<^item> A Python exception is a value of type \<open>error\<close>; a method returns
    \<open>(error + 'a) \<times> state\<close>, the state being the one the caller observes after the return
    or after the raise.
  \<^item> A response of an AWS client is a dict whose members have the types of the service's
    API; what varies is whether a member is present. Such a dict is a record of options:
    \<open>None\<close> is "key not in the dict". Reading an absent key with \<open>d[k]\<close> raises
    \<open>KeyError\<close>.
  \<^item> The three module-level clients and the configured endpoint are the record \<open>aws\<close>,
    a parameter of every method. Every call that the module makes is appended to the
    trace \<open>calls\<close> of the state.
  \<^item> A \<open>string\<close> is a list of 8-bit characters, read as the code points below 256 of a
    Python \<open>str\<close>. On these, the regular expression class \<open>\d\<close> is exactly \<open>0-9\<close>.
  \<^item> \<open>int\<close> is unbounded, as in Python; the interpreter's optional limit on the number
    of digits that \<open>int(str)\<close> accepts is not modelled.
  \<^item> \<open>LOG.debug\<close> has no effect on the object or on the clients and is left out.
\<close>

subsection \<open>Exceptions\<close>

datatype error =
    KeyError          \<comment> \<open>\<open>d[k]\<close> with \<open>k\<close> absent\<close>
  | IndexError        \<comment> \<open>\<open>xs[i]\<close> out of range\<close>
  | AttributeError    \<comment> \<open>attribute read before it was set\<close>
  | ClientError       \<comment> \<open>any other exception raised by an AWS client\<close>

subsection \<open>Data\<close>

record event_detail =
  build_id :: "string option"        \<comment> \<open>\<open>detail['build-id']\<close>\<close>
  project_name :: "string option"    \<comment> \<open>\<open>detail['project-name']\<close>\<close>
  build_status :: "string option"    \<comment> \<open>\<open>detail['build-status']\<close>\<close>

record build_event =
  detail :: "event_detail option"

record log_info =
  groupName :: "string option"
  streamName :: "string option"

record build_summary =
  arn :: "string option"
  buildStatus :: "string option"

record build_group =
  "identifier" :: "string option"
  currentBuildSummary :: "build_summary option"

record build_batch =
  sourceVersion :: "string option"
  buildGroups :: "build_group list option"

record build_details =
  sourceVersion :: "string option"
  resolvedSourceVersion :: "string option"
  logs :: "log_info option"
  buildBatchArn :: "string option"
  arn :: "string option"

record builds_response =
  builds :: "build_details list option"

record batches_response =
  buildBatches :: "build_batch list option"

record log_event =
  message :: "string option"

record log_page =
  events :: "log_event list option"

record s3_object =
  Body :: string
  ContentType :: string

text \<open>The calls that the module makes on its clients, with their arguments.\<close>

datatype call =
    BatchGetBuilds "string list"
  | BatchGetBuildBatches "string list"
  | FilterLogEvents string "string list"
  | PutObject string string string

text \<open>
  The environment: \<open>CODEBUILD\<close>, \<open>CW_LOGS\<close>, \<open>BUCKET\<close> and
  \<open>config.BUILD_LOGS_API_ENDPOINT\<close>. A paginator is a lazy iterator: it is the list of
  what each step of the iteration gives, a page or a raise (which ends the iteration).
\<close>

record aws =
  batch_get_builds :: "string list \<Rightarrow> error + builds_response"
  batch_get_build_batches :: "string list \<Rightarrow> error + batches_response"
  paginate :: "string \<Rightarrow> string list \<Rightarrow> (error + log_page) list"
  put_object :: "string \<Rightarrow> string \<Rightarrow> string \<Rightarrow> error option"
  BUILD_LOGS_API_ENDPOINT :: string

text \<open>
  The \<open>Build\<close> object. \<open>build_details_attr\<close> is the attribute \<open>_build_details\<close>:
  \<open>None\<close> while \<open>hasattr(self, '_build_details')\<close> is false.
\<close>

record build =
  id' :: string
  project_name' :: string
  status :: string
  group_identifier :: "string option"
  build_details_attr :: "build_details option"

record state =
  this :: build
  calls :: "call list"
  bucket :: "string \<Rightarrow> s3_object option"

subsection \<open>The constructor\<close>

definition Build_init :: "build_event \<Rightarrow> error + build" where
  "Build_init ev =
     (case detail ev of
        None \<Rightarrow> Inl KeyError
      | Some dt \<Rightarrow>
         (case build_id dt of
            None \<Rightarrow> Inl KeyError
          | Some i \<Rightarrow>
             (case project_name dt of
                None \<Rightarrow> Inl KeyError
              | Some p \<Rightarrow>
                 (case build_status dt of
                    None \<Rightarrow> Inl KeyError
                  | Some st \<Rightarrow>
                     Inr \<lparr>id' = i, project_name' = p, status = st,
                          group_identifier = None, build_details_attr = None\<rparr>))))"

subsection \<open>Batch resolution\<close>

text \<open>\<open>str.split(sep)\<close> for a one-character separator.\<close>

fun split :: "char \<Rightarrow> string \<Rightarrow> string list" where
  "split sep [] = [[]]"
| "split sep (c # cs) =
     (if c = sep then [] # split sep cs
      else (case split sep cs of
              [] \<Rightarrow> [[c]]
            | w # ws \<Rightarrow> (c # w) # ws))"

text \<open>
  The body of the \<open>try\<close> block: the batch id is the second segment of the batch arn, the
  client is called with it, and the first element of \<open>buildBatches\<close> is taken.
\<close>

definition get_batch :: "aws \<Rightarrow> string \<Rightarrow> state \<Rightarrow> (error + build_batch) \<times> state" where
  "get_batch env barn s =
     (case split CHR ''/'' barn of
        _ # bid # _ \<Rightarrow>
          (let s1 = s\<lparr>calls := calls s @ [BatchGetBuildBatches [bid]]\<rparr> in
           case batch_get_build_batches env [bid] of
             Inl e \<Rightarrow> (Inl e, s1)
           | Inr response \<Rightarrow>
              (case buildBatches response of
                 None \<Rightarrow> (Inl KeyError, s1)
               | Some [] \<Rightarrow> (Inl IndexError, s1)
               | Some (b # _) \<Rightarrow> (Inr b, s1)))
      | _ \<Rightarrow> (Inl IndexError, s))"

text \<open>\<open>iterator_callback\<close>, a closure over the build's details.\<close>

definition iterator_callback :: "build_details \<Rightarrow> build_group \<Rightarrow> error + bool" where
  "iterator_callback d g =
     (case currentBuildSummary g of
        None \<Rightarrow> Inr False
      | Some cbs \<Rightarrow>
         (case build_summary.arn cbs of
            None \<Rightarrow> Inr False
          | Some a \<Rightarrow>
             (case build_details.arn d of
                None \<Rightarrow> Inl KeyError
              | Some a' \<Rightarrow> Inr (a = a'))))"

text \<open>\<open>next(filter(f, xs), False)\<close>: \<open>Inr None\<close> is the default \<open>False\<close>.\<close>

fun next_filter :: "('a \<Rightarrow> error + bool) \<Rightarrow> 'a list \<Rightarrow> error + 'a option" where
  "next_filter f [] = Inr None"
| "next_filter f (x # xs) =
     (case f x of
        Inl e \<Rightarrow> Inl e
      | Inr True \<Rightarrow> Inr (Some x)
      | Inr False \<Rightarrow> next_filter f xs)"

definition set_details :: "build_details \<Rightarrow> state \<Rightarrow> state" where
  "set_details d s = s\<lparr>this := (this s)\<lparr>build_details_attr := Some d\<rparr>\<rparr>"

definition set_group_identifier :: "string \<Rightarrow> state \<Rightarrow> state" where
  "set_group_identifier i s = s\<lparr>this := (this s)\<lparr>group_identifier := Some i\<rparr>\<rparr>"

definition set_status :: "string \<Rightarrow> state \<Rightarrow> state" where
  "set_status st s = s\<lparr>this := (this s)\<lparr>status := st\<rparr>\<rparr>"

definition process_batch :: "aws \<Rightarrow> state \<Rightarrow> (error + unit) \<times> state" where
  "process_batch env s =
     (case build_details_attr (this s) of
        None \<Rightarrow> (Inl AttributeError, s)
      | Some d \<Rightarrow>
         (case buildBatchArn d of
            None \<Rightarrow> (Inr (), s)
          | Some barn \<Rightarrow>
             (case get_batch env barn s of
                (Inl e, s1) \<Rightarrow> (if e = KeyError then (Inr (), s1) else (Inl e, s1))
              | (Inr batch, s1) \<Rightarrow>
                 (case build_batch.sourceVersion batch of
                    None \<Rightarrow> (Inr (), s1)
                  | Some sv \<Rightarrow>
                     (let d2 = d\<lparr>build_details.sourceVersion := Some sv\<rparr>;
                          s2 = set_details d2 s1 in
                      case buildGroups batch of
                        None \<Rightarrow> (Inr (), s2)
                      | Some groups \<Rightarrow>
                         (case next_filter (iterator_callback d2) groups of
                            Inl e \<Rightarrow> (Inl e, s2)
                          | Inr None \<Rightarrow> (Inr (), s2)
                          | Inr (Some g) \<Rightarrow>
                             (case identifier g of
                                None \<Rightarrow> (Inr (), s2)
                              | Some i \<Rightarrow>
                                 (let s3 = set_group_identifier i s2 in
                                  case currentBuildSummary g of
                                    None \<Rightarrow> (Inl KeyError, s3)
                                  | Some cbs \<Rightarrow>
                                     (case buildStatus cbs of
                                        None \<Rightarrow> (Inl KeyError, s3)
                                      | Some st \<Rightarrow> (Inr (), set_status st s3))))))))))"

subsection \<open>Build details, fetched on first use\<close>

definition get_build_details :: "aws \<Rightarrow> state \<Rightarrow> (error + build_details) \<times> state" where
  "get_build_details env s =
     (case build_details_attr (this s) of
        Some d \<Rightarrow> (Inr d, s)
      | None \<Rightarrow>
         (let s1 = s\<lparr>calls := calls s @ [BatchGetBuilds [id' (this s)]]\<rparr> in
          case batch_get_builds env [id' (this s)] of
            Inl e \<Rightarrow> (Inl e, s1)
          | Inr response \<Rightarrow>
             (case builds response of
                None \<Rightarrow> (Inl KeyError, s1)
              | Some [] \<Rightarrow> (Inl IndexError, s1)
              | Some (b # _) \<Rightarrow>
                 (case process_batch env (set_details b s1) of
                    (Inl e, s2) \<Rightarrow> (Inl e, s2)
                  | (Inr _, s2) \<Rightarrow>
                     (case build_details_attr (this s2) of
                        None \<Rightarrow> (Inl AttributeError, s2)
                      | Some d \<Rightarrow> (Inr d, s2))))))"

subsection \<open>Pull request and commit accessors\<close>

text \<open>
  \<open>re.match(r'^pr\/(\d+)', s)\<close>: the text \<open>pr/\<close> at the start of \<open>s\<close>, then one digit
  or more; the group is the longest run of digits there. \<open>None\<close> is "no match".
\<close>

definition is_digit :: "char \<Rightarrow> bool" where
  "is_digit c = (c \<in> set ''0123456789'')"

definition re_match_pr :: "string \<Rightarrow> string option" where
  "re_match_pr s =
     (if take 3 s = ''pr/'' then
        (let ds = takeWhile is_digit (drop 3 s) in
         if ds = [] then None else Some ds)
      else None)"

text \<open>\<open>int(ds)\<close> on a string of decimal digits.\<close>

definition int_of_digits :: "string \<Rightarrow> int" where
  "int_of_digits ds = foldl (\<lambda>n c. 10 * n + (int (of_char c) - 48)) 0 ds"

definition get_pr_id :: "aws \<Rightarrow> state \<Rightarrow> (error + int option) \<times> state" where
  "get_pr_id env s =
     (case get_build_details env s of
        (Inl e, s1) \<Rightarrow> (Inl e, s1)
      | (Inr d, s1) \<Rightarrow>
         (case re_match_pr (case build_details.sourceVersion d of None \<Rightarrow> [] | Some v \<Rightarrow> v) of
            None \<Rightarrow> (Inr None, s1)
          | Some ds \<Rightarrow> (Inr (Some (int_of_digits ds)), s1)))"

definition commit_id :: "aws \<Rightarrow> state \<Rightarrow> (error + string) \<times> state" where
  "commit_id env s =
     (case get_build_details env s of
        (Inl e, s1) \<Rightarrow> (Inl e, s1)
      | (Inr d, s1) \<Rightarrow>
         (case resolvedSourceVersion d of
            None \<Rightarrow> (Inl KeyError, s1)
          | Some v \<Rightarrow> (Inr v, s1)))"

definition is_pr_build :: "aws \<Rightarrow> state \<Rightarrow> (error + bool) \<times> state" where
  "is_pr_build env s =
     (case get_pr_id env s of
        (Inl e, s1) \<Rightarrow> (Inl e, s1)
      | (Inr r, s1) \<Rightarrow> (Inr (r \<noteq> None), s1))"

subsection \<open>Copying the logs\<close>

definition get_logs_key :: "aws \<Rightarrow> state \<Rightarrow> (error + string) \<times> state" where
  "get_logs_key env s =
     (case get_build_details env s of
        (Inl e, s1) \<Rightarrow> (Inl e, s1)
      | (Inr d, s1) \<Rightarrow>
         (case logs d of
            None \<Rightarrow> (Inl KeyError, s1)
          | Some log_info \<Rightarrow>
             (case streamName log_info of
                None \<Rightarrow> (Inl KeyError, s1)
              | Some log_stream \<Rightarrow> (Inr (log_stream @ ''/build.log''), s1))))"

text \<open>
  The comprehension \<open>[event['message'] for page in iter for event in page['events']]\<close>,
  which stops at the first raise.
\<close>

fun event_messages :: "log_event list \<Rightarrow> error + string list" where
  "event_messages [] = Inr []"
| "event_messages (ev # evs) =
     (case message ev of
        None \<Rightarrow> Inl KeyError
      | Some m \<Rightarrow>
         (case event_messages evs of
            Inl e \<Rightarrow> Inl e
          | Inr ms \<Rightarrow> Inr (m # ms)))"

fun page_messages :: "(error + log_page) list \<Rightarrow> error + string list" where
  "page_messages [] = Inr []"
| "page_messages (Inl e # ps) = Inl e"
| "page_messages (Inr page # ps) =
     (case events page of
        None \<Rightarrow> Inl KeyError
      | Some evs \<Rightarrow>
         (case event_messages evs of
            Inl e \<Rightarrow> Inl e
          | Inr ms \<Rightarrow>
             (case page_messages ps of
                Inl e \<Rightarrow> Inl e
              | Inr ms' \<Rightarrow> Inr (ms @ ms'))))"

definition copy_logs :: "aws \<Rightarrow> state \<Rightarrow> (error + unit) \<times> state" where
  "copy_logs env s =
     (case get_build_details env s of
        (Inl e, s1) \<Rightarrow> (Inl e, s1)
      | (Inr d, s1) \<Rightarrow>
         (case logs d of
            None \<Rightarrow> (Inl KeyError, s1)
          | Some log_info \<Rightarrow>
             (case groupName log_info of
                None \<Rightarrow> (Inl KeyError, s1)
              | Some log_group \<Rightarrow>
                 (case streamName log_info of
                    None \<Rightarrow> (Inl KeyError, s1)
                  | Some log_stream \<Rightarrow>
                     (let s2 = s1\<lparr>calls := calls s1 @ [FilterLogEvents log_group [log_stream]]\<rparr> in
                      case page_messages (paginate env log_group [log_stream]) of
                        Inl e \<Rightarrow> (Inl e, s2)
                      | Inr ms \<Rightarrow>
                         (let logs_content = concat ms in
                          case get_logs_key env s2 of
                            (Inl e, s3) \<Rightarrow> (Inl e, s3)
                          | (Inr key, s3) \<Rightarrow>
                             (let s4 = s3\<lparr>calls := calls s3 @
                                         [PutObject key logs_content ''text/plain'']\<rparr> in
                              case put_object env key logs_content ''text/plain'' of
                                Some e \<Rightarrow> (Inl e, s4)
                              | None \<Rightarrow>
                                 (Inr (), s4\<lparr>bucket := (bucket s4)(key \<mapsto>
                                    \<lparr>Body = logs_content, ContentType = ''text/plain''\<rparr>)\<rparr>))))))))"

subsection \<open>The retrieval URL\<close>

text \<open>
  \<open>urllib.parse.quote_plus\<close> with its default arguments. The string is encoded in UTF-8;
  a byte that is an ASCII letter, a digit, one of \<open>_.-~\<close> or in \<open>safe\<close> stands for itself,
  every other byte is \<open>%\<close> and two upper-case hexadecimal digits. \<open>quote_plus\<close> passes
  \<open>safe = ''\<close>, and writes \<open>+\<close> for a space.
\<close>

definition utf8 :: "char \<Rightarrow> nat list" where
  "utf8 c = (let n = of_char c in if n < 128 then [n] else [192 + n div 64, 128 + n mod 64])"

definition always_safe :: "string" where
  "always_safe = ''ABCDEFGHIJKLMNOPQRSTUVWXYZabcdefghijklmnopqrstuvwxyz0123456789_.-~''"

definition hex_digit :: "nat \<Rightarrow> char" where
  "hex_digit n = (if n < 10 then char_of (48 + n) else char_of (55 + n))"

definition quote_byte :: "string \<Rightarrow> nat \<Rightarrow> string" where
  "quote_byte safe b =
     (if b < 128 \<and> char_of b \<in> set (always_safe @ safe) then [char_of b]
      else [CHR ''%'', hex_digit (b div 16), hex_digit (b mod 16)])"

definition quote :: "string \<Rightarrow> string \<Rightarrow> string" where
  "quote s safe = concat (map (quote_byte safe) (concat (map utf8 s)))"

definition quote_plus :: "string \<Rightarrow> string" where
  "quote_plus s =
     (if CHR '' '' \<notin> set s then quote s []
      else map (\<lambda>c. if c = CHR '' '' then CHR ''+'' else c) (quote s '' ''))"

definition get_logs_url :: "aws \<Rightarrow> state \<Rightarrow> (error + string) \<times> state" where
  "get_logs_url env s =
     (case get_logs_key env s of
        (Inl e, s1) \<Rightarrow> (Inl e, s1)
      | (Inr key, s1) \<Rightarrow> (Inr (BUILD_LOGS_API_ENDPOINT env @ ''?key='' @ quote_plus key), s1))"

subsection \<open>Notions used to state the properties\<close>

text \<open>A group whose \<open>currentBuildSummary.arn\<close> equals the arn \<open>a\<close>.\<close>

definition group_matches :: "string \<Rightarrow> build_group \<Rightarrow> bool" where
  "group_matches a g =
     (case currentBuildSummary g of
        None \<Rightarrow> False
      | Some cbs \<Rightarrow> build_summary.arn cbs = Some a)"

text \<open>The calls of the trace that ask the build service for build details.\<close>

definition is_batch_get_builds :: "call \<Rightarrow> bool" where
  "is_batch_get_builds c = (case c of BatchGetBuilds ids \<Rightarrow> True | _ \<Rightarrow> False)"

text \<open>\<open>quote_plus\<close> byte by byte: what one byte of the UTF-8 encoding becomes.\<close>

definition quote_plus_byte :: "nat \<Rightarrow> string" where
  "quote_plus_byte b = (if b = 32 then ''+'' else quote_byte [] b)"

text \<open>
  The reader's side of the URL, \<open>urllib.parse.unquote_plus\<close>, on well-formed input: \<open>+\<close>
  is a space, \<open>%XY\<close> is the byte with the hexadecimal digits \<open>X\<close>, \<open>Y\<close>, and the bytes
  are decoded from UTF-8 (code points below 256). It is not part of the module; it states
  that the query value determines the key.
\<close>

definition hex_value :: "char \<Rightarrow> nat" where
  "hex_value c = (let n = of_char c in if n < 58 then n - 48 else n - 55)"

fun unquote_to_bytes :: "string \<Rightarrow> nat list" where
  "unquote_to_bytes [] = []"
| "unquote_to_bytes (c # cs) =
     (if c = CHR ''+'' then 32 # unquote_to_bytes cs
      else if c = CHR ''%'' then
        (case cs of
           a # b # rest \<Rightarrow> (16 * hex_value a + hex_value b) # unquote_to_bytes rest
         | _ \<Rightarrow> map of_char (c # cs))
      else of_char c # unquote_to_bytes cs)"

fun utf8_decode :: "nat list \<Rightarrow> string" where
  "utf8_decode [] = []"
| "utf8_decode [b] = [char_of b]"
| "utf8_decode (b # b2 # bs) =
     (if b < 128 then char_of b # utf8_decode (b2 # bs)
      else char_of ((b - 192) * 64 + (b2 - 128)) # utf8_decode bs)"

definition unquote_plus :: "string \<Rightarrow> string" where
  "unquote_plus s = utf8_decode (unquote_to_bytes s)"

subsection \<open>Example builds and services\<close>

text \<open>
  Clients that answer the build id \<open>proj:1\<close>, the batch id \<open>proj:b1\<close> and one log stream
  with the given responses, and whose bucket accepts every object.
\<close>

definition mk_aws :: "(error + builds_response) \<Rightarrow> (error + batches_response) \<Rightarrow>
    (error + log_page) list \<Rightarrow> aws" where
  "mk_aws b bb ps =
     \<lparr>batch_get_builds = (\<lambda>ids. if ids = [''proj:1''] then b else Inr \<lparr>builds = Some []\<rparr>),
      batch_get_build_batches =
        (\<lambda>ids. if ids = [''proj:b1''] then bb else Inr \<lparr>buildBatches = Some []\<rparr>),
      paginate = (\<lambda>g sts. if g = ''/aws/codebuild/proj'' \<and> sts = [''my stream/1''] then ps else []),
      put_object = (\<lambda>k body ct. None),
      BUILD_LOGS_API_ENDPOINT = ''https://logs.example.com/prod''\<rparr>"

definition ex_event :: build_event where
  "ex_event = \<lparr>detail = Some \<lparr>build_id = Some ''proj:1'', project_name = Some ''proj'',
                               build_status = Some ''FAILED''\<rparr>\<rparr>"

definition ex_build :: build where
  "ex_build = \<lparr>id' = ''proj:1'', project_name' = ''proj'', status = ''FAILED'',
               group_identifier = None, build_details_attr = None\<rparr>"

definition ex_state :: state where
  "ex_state = \<lparr>this = ex_build, calls = [], bucket = Map.empty\<rparr>"

definition ex_logs :: log_info where
  "ex_logs = \<lparr>groupName = Some ''/aws/codebuild/proj'', streamName = Some ''my stream/1''\<rparr>"

text \<open>A build outside any batch, for pull request 42.\<close>

definition ex_plain :: build_details where
  "ex_plain = \<lparr>build_details.sourceVersion = Some ''pr/42'',
               resolvedSourceVersion = Some ''a1b2c3'',
               logs = Some ex_logs, buildBatchArn = None,
               build_details.arn = Some ''arn:build/proj:1''\<rparr>"

text \<open>A build with neither \<open>sourceVersion\<close> nor \<open>resolvedSourceVersion\<close>.\<close>

definition ex_unversioned :: build_details where
  "ex_unversioned = \<lparr>build_details.sourceVersion = None, resolvedSourceVersion = None,
               logs = Some ex_logs, buildBatchArn = None,
               build_details.arn = Some ''arn:build/proj:1''\<rparr>"

text \<open>An item of the batch \<open>proj:b1\<close>; its own \<open>sourceVersion\<close> is a commit hash.\<close>

definition ex_item :: build_details where
  "ex_item = \<lparr>build_details.sourceVersion = Some ''a1b2c3'',
              resolvedSourceVersion = Some ''a1b2c3'',
              logs = Some ex_logs, buildBatchArn = Some ''arn:build-batch/proj:b1'',
              build_details.arn = Some ''arn:build/proj:1''\<rparr>"

definition ex_group_other :: build_group where
  "ex_group_other = \<lparr>identifier = Some ''linux'',
     currentBuildSummary =
       Some \<lparr>build_summary.arn = Some ''arn:build/proj:2'', buildStatus = Some ''FAILED''\<rparr>\<rparr>"

definition ex_group_this :: build_group where
  "ex_group_this = \<lparr>identifier = Some ''windows'',
     currentBuildSummary =
       Some \<lparr>build_summary.arn = Some ''arn:build/proj:1'', buildStatus = Some ''SUCCEEDED''\<rparr>\<rparr>"

definition ex_group_no_status :: build_group where
  "ex_group_no_status = \<lparr>identifier = Some ''windows'',
     currentBuildSummary =
       Some \<lparr>build_summary.arn = Some ''arn:build/proj:1'', buildStatus = None\<rparr>\<rparr>"

definition ex_batch :: build_batch where
  "ex_batch = \<lparr>build_batch.sourceVersion = Some ''pr/7'',
               buildGroups = Some [ex_group_other, ex_group_this]\<rparr>"

definition ex_batch_no_source_version :: build_batch where
  "ex_batch_no_source_version =
     \<lparr>build_batch.sourceVersion = None, buildGroups = Some [ex_group_other, ex_group_this]\<rparr>"

definition ex_batch_no_status :: build_batch where
  "ex_batch_no_status = \<lparr>build_batch.sourceVersion = Some ''pr/7'',
               buildGroups = Some [ex_group_other, ex_group_no_status]\<rparr>"

text \<open>Two pages of log events: \<open>"A: "\<close>, \<open>"B\n"\<close> and \<open>"C: "\<close>, \<open>"D\n"\<close>.\<close>

definition ex_pages :: "(error + log_page) list" where
  "ex_pages =
     [Inr \<lparr>events = Some [\<lparr>message = Some ''A: ''\<rparr>, \<lparr>message = Some [CHR ''B'', CHR 0x0A]\<rparr>]\<rparr>,
      Inr \<lparr>events = Some [\<lparr>message = Some ''C: ''\<rparr>, \<lparr>message = Some [CHR ''D'', CHR 0x0A]\<rparr>]\<rparr>]"

definition aws_plain :: aws where
  "aws_plain = mk_aws (Inr \<lparr>builds = Some [ex_plain]\<rparr>) (Inl ClientError) ex_pages"

definition aws_unversioned :: aws where
  "aws_unversioned = mk_aws (Inr \<lparr>builds = Some [ex_unversioned]\<rparr>) (Inl ClientError) []"

definition aws_batch :: "(error + batches_response) \<Rightarrow> aws" where
  "aws_batch bb = mk_aws (Inr \<lparr>builds = Some [ex_item]\<rparr>) bb ex_pages"

text \<open>The state after the details of \<open>ex_plain\<close> were fetched.\<close>

definition ex_state_fetched :: state where
  "ex_state_fetched =
     \<lparr>this = ex_build\<lparr>build_details_attr := Some ex_plain\<rparr>,
      calls = [BatchGetBuilds [''proj:1'']], bucket = Map.empty\<rparr>"

section \<open>Properties\<close>

lemmas ex_defs = mk_aws_def ex_event_def ex_build_def ex_state_def ex_logs_def ex_plain_def
  ex_unversioned_def ex_item_def ex_group_other_def ex_group_this_def ex_group_no_status_def
  ex_batch_def ex_batch_no_source_version_def ex_batch_no_status_def ex_pages_def
  aws_plain_def aws_unversioned_def aws_batch_def ex_state_fetched_def

lemmas run_defs = get_build_details_def process_batch_def get_batch_def iterator_callback_def
  set_details_def set_group_identifier_def set_status_def Let_def

subsection \<open>The state updates\<close>

lemma this_set_details [simp]:
  "this (set_details d s) = (this s)\<lparr>build_details_attr := Some d\<rparr>"
  by (simp add: set_details_def)

lemma calls_set_details [simp]: "calls (set_details d s) = calls s"
  by (simp add: set_details_def)

lemma bucket_set_details [simp]: "bucket (set_details d s) = bucket s"
  by (simp add: set_details_def)

lemma this_set_group_identifier [simp]:
  "this (set_group_identifier i s) = (this s)\<lparr>group_identifier := Some i\<rparr>"
  by (simp add: set_group_identifier_def)

lemma calls_set_group_identifier [simp]: "calls (set_group_identifier i s) = calls s"
  by (simp add: set_group_identifier_def)

lemma bucket_set_group_identifier [simp]: "bucket (set_group_identifier i s) = bucket s"
  by (simp add: set_group_identifier_def)

lemma this_set_status [simp]: "this (set_status st s) = (this s)\<lparr>status := st\<rparr>"
  by (simp add: set_status_def)

lemma calls_set_status [simp]: "calls (set_status st s) = calls s"
  by (simp add: set_status_def)

lemma bucket_set_status [simp]: "bucket (set_status st s) = bucket s"
  by (simp add: set_status_def)

subsection \<open>The constructor and the steps of batch resolution\<close>

lemma Build_init_Inr:
  assumes "Build_init ev = Inr b"
  shows "\<exists>dt i p st. detail ev = Some dt \<and> build_id dt = Some i \<and> project_name dt = Some p \<and>
           build_status dt = Some st \<and>
           b = \<lparr>id' = i, project_name' = p, status = st, group_identifier = None,
                build_details_attr = None\<rparr>"
  using assms by (auto simp: Build_init_def split: option.splits)

text \<open>The search of the groups is \<open>find\<close> when the build has an arn.\<close>

lemma next_filter_callback:
  assumes "build_details.arn d = Some a"
  shows "next_filter (iterator_callback d) gs = Inr (find (group_matches a) gs)"
  using assms
  by (induction gs)
     (auto simp: iterator_callback_def group_matches_def split: option.splits)

lemma get_batch_this:
  "get_batch env barn s = (r, s1) \<Longrightarrow> this s1 = this s \<and> bucket s1 = bucket s"
  by (auto simp: get_batch_def Let_def split: list.splits sum.splits option.splits)

lemma get_batch_call:
  assumes "split CHR ''/'' barn = x # bid # rest"
  shows "get_batch env barn s =
     (case batch_get_build_batches env [bid] of
        Inl e \<Rightarrow> Inl e
      | Inr response \<Rightarrow>
         (case buildBatches response of
            None \<Rightarrow> Inl KeyError
          | Some [] \<Rightarrow> Inl IndexError
          | Some (b # _) \<Rightarrow> Inr b),
      s\<lparr>calls := calls s @ [BatchGetBuildBatches [bid]]\<rparr>)"
  using assms
  by (simp add: get_batch_def Let_def split: sum.splits option.splits list.splits)

lemma process_batch_unfold:
  assumes "build_details_attr (this s) = Some d" "buildBatchArn d = Some barn"
    and "get_batch env barn s = (r, s1)"
  shows "process_batch env s =
     (case r of
        Inl e \<Rightarrow> (if e = KeyError then (Inr (), s1) else (Inl e, s1))
      | Inr batch \<Rightarrow>
         (case build_batch.sourceVersion batch of
            None \<Rightarrow> (Inr (), s1)
          | Some sv \<Rightarrow>
             (let d2 = d\<lparr>build_details.sourceVersion := Some sv\<rparr>;
                  s2 = set_details d2 s1 in
              case buildGroups batch of
                None \<Rightarrow> (Inr (), s2)
              | Some groups \<Rightarrow>
                 (case next_filter (iterator_callback d2) groups of
                    Inl e \<Rightarrow> (Inl e, s2)
                  | Inr None \<Rightarrow> (Inr (), s2)
                  | Inr (Some g) \<Rightarrow>
                     (case identifier g of
                        None \<Rightarrow> (Inr (), s2)
                      | Some i \<Rightarrow>
                         (let s3 = set_group_identifier i s2 in
                          case currentBuildSummary g of
                            None \<Rightarrow> (Inl KeyError, s3)
                          | Some cbs \<Rightarrow>
                             (case buildStatus cbs of
                                None \<Rightarrow> (Inl KeyError, s3)
                              | Some st \<Rightarrow> (Inr (), set_status st s3))))))))"
  using assms by (simp add: process_batch_def split: sum.splits)

lemma details_unchanged: "\<exists>sv. d = d\<lparr>build_details.sourceVersion := sv\<rparr>"
  by (rule exI[of _ "build_details.sourceVersion d"]) simp

text \<open>
  What batch resolution can change: of the details only \<open>sourceVersion\<close>; it makes no
  build-details call, and leaves the bucket and the build id alone.
\<close>

lemma process_batch_effect:
  assumes attr: "build_details_attr (this s) = Some d"
  shows "(\<exists>sv. build_details_attr (this (snd (process_batch env s))) =
            Some (d\<lparr>build_details.sourceVersion := sv\<rparr>)) \<and>
         filter is_batch_get_builds (calls (snd (process_batch env s))) =
           filter is_batch_get_builds (calls s) \<and>
         bucket (snd (process_batch env s)) = bucket s \<and>
         id' (this (snd (process_batch env s))) = id' (this s)"
proof (cases "buildBatchArn d")
  case None
  with attr details_unchanged[of d] show ?thesis
    by (simp add: process_batch_def)
next
  case (Some barn)
  obtain r s1 where gb: "get_batch env barn s = (r, s1)" by (cases "get_batch env barn s")
  have s1: "this s1 = this s" "bucket s1 = bucket s"
    using get_batch_this[OF gb] by simp_all
  have c1: "filter is_batch_get_builds (calls s1) = filter is_batch_get_builds (calls s)"
    using gb
    by (auto simp: get_batch_def Let_def is_batch_get_builds_def
             split: list.splits sum.splits option.splits)
  have "\<exists>sv. build_details_attr (this (snd (process_batch env s))) =
            Some (d\<lparr>build_details.sourceVersion := sv\<rparr>)"
    unfolding process_batch_unfold[OF attr Some gb]
    using attr s1 details_unchanged[of d]
    by (auto simp: Let_def split: sum.splits option.splits)
  moreover have "filter is_batch_get_builds (calls (snd (process_batch env s))) =
           filter is_batch_get_builds (calls s)"
    unfolding process_batch_unfold[OF attr Some gb]
    using c1 by (simp add: Let_def split: sum.splits option.splits)
  moreover have "bucket (snd (process_batch env s)) = bucket s"
    unfolding process_batch_unfold[OF attr Some gb]
    using s1 by (simp add: Let_def split: sum.splits option.splits)
  moreover have "id' (this (snd (process_batch env s))) = id' (this s)"
    unfolding process_batch_unfold[OF attr Some gb]
    using s1 by (simp add: Let_def split: sum.splits option.splits)
  ultimately show ?thesis by blast
qed

lemma process_batch_attr:
  assumes "build_details_attr (this s) = Some d"
  shows "build_details_attr (this (snd (process_batch env s))) \<noteq> None"
  using process_batch_effect[OF assms, of env] by auto

text \<open>Once the batch has a \<open>sourceVersion\<close>, the details carry it whatever follows.\<close>

lemma process_batch_source_version:
  assumes attr: "build_details_attr (this s) = Some d"
    and barn: "buildBatchArn d = Some barn"
    and bid: "split CHR ''/'' barn = x # bid # rest"
    and batch: "batch_get_build_batches env [bid] = Inr r" "buildBatches r = Some (bt # bts)"
    and sv: "build_batch.sourceVersion bt = Some sv"
  shows "build_details_attr (this (snd (process_batch env s))) =
           Some (d\<lparr>build_details.sourceVersion := Some sv\<rparr>)"
  by (simp add: process_batch_unfold[OF attr barn get_batch_call[OF bid]] batch sv Let_def
           split: option.splits sum.splits)

text \<open>The path on which a group is found and has an identifier.\<close>

lemma process_batch_match:
  assumes attr: "build_details_attr (this s) = Some d"
    and barn: "buildBatchArn d = Some barn"
    and bid: "split CHR ''/'' barn = x # bid # rest"
    and batch: "batch_get_build_batches env [bid] = Inr r" "buildBatches r = Some (bt # bts)"
    and sv: "build_batch.sourceVersion bt = Some sv"
    and gs: "buildGroups bt = Some gs"
    and arn: "build_details.arn d = Some a"
    and g: "find (group_matches a) gs = Some g"
    and ident: "identifier g = Some i"
    and cbs: "currentBuildSummary g = Some cbs"
  shows "process_batch env s =
     (let s3 = set_group_identifier i
                 (set_details (d\<lparr>build_details.sourceVersion := Some sv\<rparr>)
                    (s\<lparr>calls := calls s @ [BatchGetBuildBatches [bid]]\<rparr>)) in
      case buildStatus cbs of
        None \<Rightarrow> (Inl KeyError, s3)
      | Some st \<Rightarrow> (Inr (), set_status st s3))"
proof -
  have a2: "build_details.arn (d\<lparr>build_details.sourceVersion := Some sv\<rparr>) = Some a"
    using arn by simp
  show ?thesis
    by (simp add: process_batch_unfold[OF attr barn get_batch_call[OF bid]]
          batch sv gs next_filter_callback[OF a2] g ident cbs Let_def)
qed

subsection \<open>Fetching the details\<close>

lemma get_build_details_cached:
  "build_details_attr (this s) = Some d \<Longrightarrow> get_build_details env s = (Inr d, s)"
  by (simp add: get_build_details_def)

lemma get_build_details_fresh:
  assumes "build_details_attr (this s) = None"
    and "batch_get_builds env [id' (this s)] = Inr resp"
    and "builds resp = Some (d # ds)"
  shows "get_build_details env s =
     (case process_batch env
             (set_details d (s\<lparr>calls := calls s @ [BatchGetBuilds [id' (this s)]]\<rparr>)) of
        (Inl e, s2) \<Rightarrow> (Inl e, s2)
      | (Inr u, s2) \<Rightarrow>
         (case build_details_attr (this s2) of
            None \<Rightarrow> (Inl AttributeError, s2)
          | Some d' \<Rightarrow> (Inr d', s2)))"
  using assms by (simp add: get_build_details_def Let_def)

lemma get_build_details_fresh_snd:
  assumes "build_details_attr (this s) = None"
    and "batch_get_builds env [id' (this s)] = Inr resp"
    and "builds resp = Some (d # ds)"
  shows "snd (get_build_details env s) =
     snd (process_batch env
            (set_details d (s\<lparr>calls := calls s @ [BatchGetBuilds [id' (this s)]]\<rparr>)))"
  by (simp add: get_build_details_fresh[OF assms] split: prod.splits sum.splits option.splits)

lemma get_build_details_Inr:
  assumes "get_build_details env s = (Inr d, s1)"
  shows "build_details_attr (this s1) = Some d"
  using assms
  by (auto simp: get_build_details_def Let_def
           split: option.splits sum.splits list.splits prod.splits)

lemma get_build_details_keeps:
  "bucket (snd (get_build_details env s)) = bucket s"
proof (cases "build_details_attr (this s)")
  case (Some d)
  then show ?thesis by (simp add: get_build_details_cached)
next
  case None
  show ?thesis
  proof (cases "batch_get_builds env [id' (this s)]")
    case (Inl e)
    with None show ?thesis by (simp add: get_build_details_def Let_def)
  next
    case (Inr resp)
    show ?thesis
    proof (cases "builds resp")
      case no: None
      with None Inr show ?thesis by (simp add: get_build_details_def Let_def)
    next
      case (Some bs)
      show ?thesis
      proof (cases bs)
        case Nil
        with None Inr Some show ?thesis by (simp add: get_build_details_def Let_def)
      next
        case (Cons d ds)
        have attr: "build_details_attr
            (this (set_details d (s\<lparr>calls := calls s @ [BatchGetBuilds [id' (this s)]]\<rparr>))) =
              Some d"
          by simp
        from Some Cons have "builds resp = Some (d # ds)" by simp
        from get_build_details_fresh_snd[OF None Inr this] process_batch_effect[OF attr, of env]
        show ?thesis by simp
      qed
    qed
  qed
qed

lemma split_ex:
  "split CHR ''/'' ''arn:build-batch/proj:b1'' = ''arn:build-batch'' # ''proj:b1'' # []"
  by simp

lemma run_plain: "get_build_details aws_plain ex_state = (Inr ex_plain, ex_state_fetched)"
  by (simp add: ex_defs run_defs)

lemma run_unversioned:
  "get_build_details aws_unversioned ex_state =
     (Inr ex_unversioned,
      ex_state_fetched\<lparr>this := ex_build\<lparr>build_details_attr := Some ex_unversioned\<rparr>\<rparr>)"
  by (simp add: ex_defs run_defs)

subsection \<open>C1: the benign outcomes of batch resolution\<close>

text \<open>
  Claim C1, as stated, says that a failing batch-details call is never propagated. The
  \<open>try\<close> block catches \<open>KeyError\<close> only: when the client raises another exception, here
  \<open>ClientError\<close> for a build that is part of a batch, the exception leaves
  \<open>_process_batch\<close> and \<open>_get_build_details\<close>.
\<close>

theorem service_failure_propagates:
  "buildBatchArn ex_item = Some ''arn:build-batch/proj:b1'' \<and>
   batch_get_build_batches (aws_batch (Inl ClientError)) [''proj:b1''] = Inl ClientError \<and>
   fst (process_batch (aws_batch (Inl ClientError)) (set_details ex_item ex_state)) =
     Inl ClientError \<and>
   fst (get_build_details (aws_batch (Inl ClientError)) ex_state) = Inl ClientError"
  by (simp add: ex_defs run_defs)

text \<open>
  An empty \<open>buildBatches\<close> list is not caught either: \<open>[0]\<close> raises \<open>IndexError\<close>.
\<close>

lemma empty_batches_index_error:
  "fst (get_build_details (aws_batch (Inr \<lparr>buildBatches = Some []\<rparr>)) ex_state) = Inl IndexError"
  by (simp add: ex_defs run_defs)

text \<open>
  Claim C1 (amended). For every build created from an event whose fetched details carry a
  \<open>buildBatchArn\<close> with a second path segment: if the batch-details call raises
  \<open>KeyError\<close>, or its response has no \<open>buildBatches\<close> member, or the batch lacks
  \<open>sourceVersion\<close> or \<open>buildGroups\<close>, or no group matches this build's arn, or the first
  matching group lacks an identifier, then detail resolution returns the details without
  raising, \<open>group_identifier\<close> remains none and \<open>status\<close> remains the build status of the
  event.
\<close>

theorem process_batch_benign:
  assumes init: "Build_init ev = Inr (this s)"
    and resp: "batch_get_builds env [id' (this s)] = Inr resp" "builds resp = Some (d # ds)"
    and barn: "buildBatchArn d = Some barn"
    and bid: "split CHR ''/'' barn = x # bid # rest"
    and benign:
      "batch_get_build_batches env [bid] = Inl KeyError \<or>
       (\<exists>r. batch_get_build_batches env [bid] = Inr r \<and>
         (buildBatches r = None \<or>
          (\<exists>bt bts. buildBatches r = Some (bt # bts) \<and>
            (build_batch.sourceVersion bt = None \<or>
             buildGroups bt = None \<or>
             (\<exists>gs a. buildGroups bt = Some gs \<and> build_details.arn d = Some a \<and>
                (find (group_matches a) gs = None \<or>
                 (\<exists>g. find (group_matches a) gs = Some g \<and> identifier g = None)))))))"
  shows "(\<exists>d'. fst (get_build_details env s) = Inr d') \<and>
         group_identifier (this (snd (get_build_details env s))) = None \<and>
         (\<exists>dt. detail ev = Some dt \<and>
            build_status dt = Some (status (this (snd (get_build_details env s)))))"
proof -
  let ?s0 = "set_details d (s\<lparr>calls := calls s @ [BatchGetBuilds [id' (this s)]]\<rparr>)"
  from Build_init_Inr[OF init] obtain dt st where
    ev: "detail ev = Some dt" "build_status dt = Some st" and
    st: "status (this s) = st" and gi: "group_identifier (this s) = None" and
    fresh: "build_details_attr (this s) = None"
    by auto
  have attr: "build_details_attr (this ?s0) = Some d" by simp
  note gb = get_batch_call[OF bid, of env ?s0]
  note pb = process_batch_unfold[OF attr barn gb]
  obtain r s2 where pbr: "process_batch env ?s0 = (r, s2)"
    by (cases "process_batch env ?s0")
  have ok: "r = Inr ()" and same: "group_identifier (this s2) = None" "status (this s2) = st"
    using benign st gi pbr [unfolded pb]
    by (auto simp: Let_def next_filter_callback split: option.splits)
  from process_batch_attr[OF attr, of env] pbr obtain d' where
    d': "build_details_attr (this s2) = Some d'" by auto
  have "get_build_details env s = (Inr d', s2)"
    using ok d' pbr by (simp add: get_build_details_fresh[OF fresh resp])
  with same ev show ?thesis by simp
qed

text \<open>The batch service raises \<open>KeyError\<close> for the item of a batch: nothing changes.\<close>

theorem process_batch_benign_witness:
  "Build_init ex_event = Inr (this ex_state) \<and>
   buildBatchArn ex_item = Some ''arn:build-batch/proj:b1'' \<and>
   batch_get_build_batches (aws_batch (Inl KeyError)) [''proj:b1''] = Inl KeyError \<and>
   fst (get_build_details (aws_batch (Inl KeyError)) ex_state) = Inr ex_item \<and>
   group_identifier (this (snd (get_build_details (aws_batch (Inl KeyError)) ex_state))) = None \<and>
   status (this (snd (get_build_details (aws_batch (Inl KeyError)) ex_state))) = ''FAILED''"
proof -
  let ?env = "aws_batch (Inl KeyError)"
  have init: "Build_init ex_event = Inr (this ex_state)"
    by (simp add: Build_init_def ex_defs)
  have resp: "batch_get_builds ?env [id' (this ex_state)] = Inr \<lparr>builds = Some [ex_item]\<rparr>"
    by (simp add: ex_defs)
  have builds: "builds \<lparr>builds = Some [ex_item]\<rparr> = Some (ex_item # [])" by simp
  have barn: "buildBatchArn ex_item = Some ''arn:build-batch/proj:b1''"
    by (simp add: ex_defs)
  have fails: "batch_get_build_batches ?env [''proj:b1''] = Inl KeyError"
    by (simp add: ex_defs)
  from fails have benign: "batch_get_build_batches ?env [''proj:b1''] = Inl KeyError \<or>
       (\<exists>r. batch_get_build_batches ?env [''proj:b1''] = Inr r \<and>
         (buildBatches r = None \<or>
          (\<exists>bt bts. buildBatches r = Some (bt # bts) \<and>
            (build_batch.sourceVersion bt = None \<or>
             buildGroups bt = None \<or>
             (\<exists>gs a. buildGroups bt = Some gs \<and> build_details.arn ex_item = Some a \<and>
                (find (group_matches a) gs = None \<or>
                 (\<exists>g. find (group_matches a) gs = Some g \<and> identifier g = None)))))))"
    by (rule disjI1)
  have det: "fst (get_build_details ?env ex_state) = Inr ex_item"
    by (simp add: ex_defs run_defs)
  from process_batch_benign[OF init resp builds barn split_ex benign] init barn fails det
  show ?thesis by (simp add: ex_defs)
qed

subsection \<open>C2: the status and the identifier of the build's group\<close>

text \<open>
  Claim C2, as stated, asks only that the batch details contain \<open>buildGroups\<close>. The groups
  are searched only after the batch's \<open>sourceVersion\<close> was found: for a batch without it,
  whose second group has this build's arn, the identifier \<open>windows\<close> and the status
  \<open>SUCCEEDED\<close>, the status stays \<open>FAILED\<close> and no identifier is recorded.
\<close>

theorem group_search_needs_source_version:
  "buildGroups ex_batch_no_source_version = Some [ex_group_other, ex_group_this] \<and>
   find (group_matches ''arn:build/proj:1'') [ex_group_other, ex_group_this] = Some ex_group_this \<and>
   identifier ex_group_this = Some ''windows'' \<and>
   fst (get_build_details
          (aws_batch (Inr \<lparr>buildBatches = Some [ex_batch_no_source_version]\<rparr>)) ex_state)
     = Inr ex_item \<and>
   status (this (snd (get_build_details
          (aws_batch (Inr \<lparr>buildBatches = Some [ex_batch_no_source_version]\<rparr>)) ex_state)))
     = ''FAILED'' \<and>
   group_identifier (this (snd (get_build_details
          (aws_batch (Inr \<lparr>buildBatches = Some [ex_batch_no_source_version]\<rparr>)) ex_state)))
     = None"
  by (simp add: ex_defs run_defs group_matches_def)

text \<open>
  Claim C2 (amended). For every batch build whose batch details contain \<open>sourceVersion\<close>
  and \<open>buildGroups\<close>, the first group, in the order of the service, whose
  \<open>currentBuildSummary.arn\<close> equals this build's arn determines the resolved state: when
  it has an identifier and its summary a \<open>buildStatus\<close>, \<open>status\<close> becomes that
  \<open>buildStatus\<close> and \<open>group_identifier\<close> that identifier, and the details are returned
  with the batch's \<open>sourceVersion\<close>.
\<close>

theorem group_status_resolved:
  assumes fresh: "build_details_attr (this s) = None"
    and resp: "batch_get_builds env [id' (this s)] = Inr resp" "builds resp = Some (d # ds)"
    and barn: "buildBatchArn d = Some barn"
    and bid: "split CHR ''/'' barn = x # bid # rest"
    and batch: "batch_get_build_batches env [bid] = Inr r" "buildBatches r = Some (bt # bts)"
    and sv: "build_batch.sourceVersion bt = Some sv"
    and gs: "buildGroups bt = Some gs"
    and arn: "build_details.arn d = Some a"
    and g: "find (group_matches a) gs = Some g"
    and ident: "identifier g = Some i"
    and cbs: "currentBuildSummary g = Some cbs" "buildStatus cbs = Some st"
  shows "fst (get_build_details env s) = Inr (d\<lparr>build_details.sourceVersion := Some sv\<rparr>) \<and>
         status (this (snd (get_build_details env s))) = st \<and>
         group_identifier (this (snd (get_build_details env s))) = Some i"
proof -
  let ?s0 = "set_details d (s\<lparr>calls := calls s @ [BatchGetBuilds [id' (this s)]]\<rparr>)"
  have attr: "build_details_attr (this ?s0) = Some d" by simp
  note pb = process_batch_match[OF attr barn bid batch sv gs arn g ident cbs(1)]
  show ?thesis
    by (simp add: get_build_details_fresh[OF fresh resp] pb cbs(2) Let_def)
qed

text \<open>
  The event reports \<open>FAILED\<close>, the status of the batch; the item's own group, second in
  the list, reports \<open>SUCCEEDED\<close>.
\<close>

theorem group_status_resolved_witness:
  "status (this ex_state) = ''FAILED'' \<and>
   find (group_matches ''arn:build/proj:1'') [ex_group_other, ex_group_this] = Some ex_group_this \<and>
   status (this (snd (get_build_details
          (aws_batch (Inr \<lparr>buildBatches = Some [ex_batch]\<rparr>)) ex_state))) = ''SUCCEEDED'' \<and>
   group_identifier (this (snd (get_build_details
          (aws_batch (Inr \<lparr>buildBatches = Some [ex_batch]\<rparr>)) ex_state))) = Some ''windows''"
proof -
  let ?env = "aws_batch (Inr \<lparr>buildBatches = Some [ex_batch]\<rparr>)"
  have fresh: "build_details_attr (this ex_state) = None" by (simp add: ex_defs)
  have resp: "batch_get_builds ?env [id' (this ex_state)] = Inr \<lparr>builds = Some [ex_item]\<rparr>"
    by (simp add: ex_defs)
  have builds: "builds \<lparr>builds = Some [ex_item]\<rparr> = Some (ex_item # [])" by simp
  have barn: "buildBatchArn ex_item = Some ''arn:build-batch/proj:b1''"
    by (simp add: ex_defs)
  have batch: "batch_get_build_batches ?env [''proj:b1''] = Inr \<lparr>buildBatches = Some [ex_batch]\<rparr>"
    by (simp add: ex_defs)
  have batches: "buildBatches \<lparr>buildBatches = Some [ex_batch]\<rparr> = Some (ex_batch # [])" by simp
  have sv: "build_batch.sourceVersion ex_batch = Some ''pr/7''" by (simp add: ex_defs)
  have gs: "buildGroups ex_batch = Some [ex_group_other, ex_group_this]" by (simp add: ex_defs)
  have arn: "build_details.arn ex_item = Some ''arn:build/proj:1''" by (simp add: ex_defs)
  have g: "find (group_matches ''arn:build/proj:1'') [ex_group_other, ex_group_this] =
             Some ex_group_this"
    by (simp add: ex_defs group_matches_def)
  have ident: "identifier ex_group_this = Some ''windows''" by (simp add: ex_defs)
  have cbs: "currentBuildSummary ex_group_this =
     Some \<lparr>build_summary.arn = Some ''arn:build/proj:1'', buildStatus = Some ''SUCCEEDED''\<rparr>"
    by (simp add: ex_defs)
  have st: "buildStatus \<lparr>build_summary.arn = Some ''arn:build/proj:1'',
                         buildStatus = Some ''SUCCEEDED''\<rparr> = Some ''SUCCEEDED''"
    by simp
  have before: "status (this ex_state) = ''FAILED''" by (simp add: ex_defs)
  from group_status_resolved[OF fresh resp builds barn split_ex batch batches sv gs arn g ident cbs st]
    before g
  show ?thesis by simp
qed

subsection \<open>C3: the batch's source version\<close>

lemma re_match_pr_7: "re_match_pr ''pr/7'' = Some ''7''"
  by (simp add: re_match_pr_def is_digit_def)

text \<open>
  Claim C3. For every batch build whose batch details contain a \<open>sourceVersion\<close>, batch
  resolution overwrites the \<open>sourceVersion\<close> of the cached build details with it: the
  cache holds it after detail resolution, however that ended, and details that are
  returned carry it. Consequently, when the batch's \<open>sourceVersion\<close> is \<open>pr/7\<close>,
  \<open>is_pr_build\<close> returns true after resolution, and already on the call that triggers the
  resolution when that completes, whatever the item's own \<open>sourceVersion\<close> was.
\<close>

theorem batch_source_version_overwrites:
  assumes fresh: "build_details_attr (this s) = None"
    and resp: "batch_get_builds env [id' (this s)] = Inr resp" "builds resp = Some (d # ds)"
    and barn: "buildBatchArn d = Some barn"
    and bid: "split CHR ''/'' barn = x # bid # rest"
    and batch: "batch_get_build_batches env [bid] = Inr r" "buildBatches r = Some (bt # bts)"
    and sv: "build_batch.sourceVersion bt = Some sv"
  shows "build_details_attr (this (snd (get_build_details env s))) =
           Some (d\<lparr>build_details.sourceVersion := Some sv\<rparr>) \<and>
         (\<forall>d'. fst (get_build_details env s) = Inr d' \<longrightarrow>
            build_details.sourceVersion d' = Some sv) \<and>
         (sv = ''pr/7'' \<longrightarrow>
            fst (is_pr_build env (snd (get_build_details env s))) = Inr True \<and>
            (\<forall>d'. fst (get_build_details env s) = Inr d' \<longrightarrow>
               fst (is_pr_build env s) = Inr True))"
proof -
  let ?s0 = "set_details d (s\<lparr>calls := calls s @ [BatchGetBuilds [id' (this s)]]\<rparr>)"
  let ?d2 = "d\<lparr>build_details.sourceVersion := Some sv\<rparr>"
  obtain res s' where run: "get_build_details env s = (res, s')"
    by (cases "get_build_details env s")
  have attr: "build_details_attr (this ?s0) = Some d" by simp
  have cached: "build_details_attr (this s') = Some ?d2"
    using process_batch_source_version[OF attr barn bid batch sv]
      get_build_details_fresh_snd[OF fresh resp] run
    by simp
  have ret: "d' = ?d2" if "res = Inr d'" for d'
    using get_build_details_Inr[of env s d' s'] that run cached by simp
  have again: "fst (is_pr_build env s') = Inr True" if "sv = ''pr/7''"
    using that
    by (simp add: is_pr_build_def get_pr_id_def get_build_details_cached[OF cached] re_match_pr_7)
  have first: "fst (is_pr_build env s) = Inr True" if "sv = ''pr/7''" "res = Inr d'" for d'
    using that ret[OF that(2)] run
    by (simp add: is_pr_build_def get_pr_id_def re_match_pr_7)
  from cached ret again first show ?thesis
    unfolding run by auto
qed

text \<open>The item's own \<open>sourceVersion\<close> is a commit hash; the batch's is \<open>pr/7\<close>.\<close>

theorem batch_source_version_overwrites_witness:
  "build_details.sourceVersion ex_item = Some ''a1b2c3'' \<and>
   build_batch.sourceVersion ex_batch = Some ''pr/7'' \<and>
   build_details_attr (this (snd (get_build_details
          (aws_batch (Inr \<lparr>buildBatches = Some [ex_batch]\<rparr>)) ex_state))) =
     Some (ex_item\<lparr>build_details.sourceVersion := Some ''pr/7''\<rparr>) \<and>
   fst (is_pr_build (aws_batch (Inr \<lparr>buildBatches = Some [ex_batch]\<rparr>))
          (snd (get_build_details (aws_batch (Inr \<lparr>buildBatches = Some [ex_batch]\<rparr>)) ex_state)))
     = Inr True \<and>
   fst (is_pr_build (aws_batch (Inr \<lparr>buildBatches = Some [ex_batch]\<rparr>)) ex_state) = Inr True"
proof -
  let ?env = "aws_batch (Inr \<lparr>buildBatches = Some [ex_batch]\<rparr>)"
  have fresh: "build_details_attr (this ex_state) = None" by (simp add: ex_defs)
  have resp: "batch_get_builds ?env [id' (this ex_state)] = Inr \<lparr>builds = Some [ex_item]\<rparr>"
    by (simp add: ex_defs)
  have builds: "builds \<lparr>builds = Some [ex_item]\<rparr> = Some (ex_item # [])" by simp
  have barn: "buildBatchArn ex_item = Some ''arn:build-batch/proj:b1''"
    by (simp add: ex_defs)
  have batch: "batch_get_build_batches ?env [''proj:b1''] = Inr \<lparr>buildBatches = Some [ex_batch]\<rparr>"
    by (simp add: ex_defs)
  have batches: "buildBatches \<lparr>buildBatches = Some [ex_batch]\<rparr> = Some (ex_batch # [])" by simp
  have sv: "build_batch.sourceVersion ex_batch = Some ''pr/7''" by (simp add: ex_defs)
  have item: "build_details.sourceVersion ex_item = Some ''a1b2c3''" by (simp add: ex_defs)
  have ok: "fst (get_build_details ?env ex_state) =
              Inr (ex_item\<lparr>build_details.sourceVersion := Some ''pr/7''\<rparr>)"
    by (simp add: ex_defs run_defs)
  from batch_source_version_overwrites[OF fresh resp builds barn split_ex batch batches sv]
    item sv ok
  show ?thesis by simp
qed

subsection \<open>C4: the retrieval URL\<close>

lemma of_char_lt_256: "of_char c < (256::nat)"
proof -
  have "of_char c = (of_char c :: nat) mod 256" by (metis of_char_mod_256)
  then show ?thesis by (metis mod_less_divisor zero_less_numeral)
qed

lemma char_of_32: "char_of (32::nat) = CHR '' ''"
  by code_simp

lemma hex_digit_code:
  "n < 16 \<Longrightarrow> of_char (hex_digit n) = (if n < 10 then 48 + n else 55 + n)"
  by (simp add: hex_digit_def)

lemma hex_value_digit: "n < 16 \<Longrightarrow> hex_value (hex_digit n) = n"
  by (simp add: hex_value_def hex_digit_code Let_def)

lemma hex_digit_not_special:
  assumes "n < 16"
  shows "hex_digit n \<noteq> CHR '' '' \<and> hex_digit n \<noteq> CHR ''/''"
proof -
  have "of_char (hex_digit n) \<noteq> (32::nat)" "of_char (hex_digit n) \<noteq> (47::nat)"
    using assms by (simp_all add: hex_digit_code)
  then show ?thesis by auto
qed

lemma always_safe_not_special:
  assumes "c \<in> set always_safe"
  shows "c \<noteq> CHR '' '' \<and> c \<noteq> CHR ''/'' \<and> c \<noteq> CHR ''+'' \<and> c \<noteq> CHR ''%''"
proof -
  have "CHR '' '' \<notin> set always_safe" "CHR ''/'' \<notin> set always_safe"
       "CHR ''+'' \<notin> set always_safe" "CHR ''%'' \<notin> set always_safe"
    by (simp_all add: always_safe_def)
  with assms show ?thesis by auto
qed

lemma utf8_bytes_lt_256:
  assumes "b \<in> set (utf8 c)"
  shows "b < 256"
proof -
  have "(of_char c :: nat) div 64 < 4" "(of_char c :: nat) mod 64 < 64"
    using of_char_lt_256[of c] by (simp_all add: div_less_iff_less_mult)
  with assms of_char_lt_256[of c] show ?thesis
    by (auto simp: utf8_def Let_def split: if_splits)
qed

lemma utf8_space: "32 \<in> set (utf8 c) \<longleftrightarrow> c = CHR '' ''"
proof
  assume "32 \<in> set (utf8 c)"
  then have "of_char c = (32::nat)"
    by (auto simp: utf8_def Let_def split: if_splits)
  then have "char_of (of_char c :: nat) = char_of (32::nat)" by simp
  then show "c = CHR '' ''" by (simp add: char_of_32)
next
  assume "c = CHR '' ''"
  then show "32 \<in> set (utf8 c)" by (simp add: utf8_def)
qed

lemma quote_byte_no_space:
  assumes "b < 256"
  shows "CHR '' '' \<notin> set (quote_byte [] b) \<and> CHR ''/'' \<notin> set (quote_byte [] b)"
proof -
  have "b div 16 < 16" "b mod 16 < 16" using assms by simp_all
  from hex_digit_not_special[OF this(1)] hex_digit_not_special[OF this(2)]
  show ?thesis
    by (auto simp: quote_byte_def dest: always_safe_not_special)
qed

lemma quote_plus_byte_no_space:
  assumes "b < 256"
  shows "CHR '' '' \<notin> set (quote_plus_byte b) \<and> CHR ''/'' \<notin> set (quote_plus_byte b)"
  using quote_byte_no_space[OF assms] by (simp add: quote_plus_byte_def)

lemma quote_byte_space_safe:
  assumes "b < 256"
  shows "map (\<lambda>c. if c = CHR '' '' then CHR ''+'' else c) (quote_byte '' '' b) =
           quote_plus_byte b"
proof (cases "b = 32")
  case True
  then show ?thesis by (simp add: quote_plus_byte_def quote_byte_def char_of_32)
next
  case False
  have ne: "char_of b \<noteq> CHR '' ''" if "b < 128"
  proof
    assume "char_of b = CHR '' ''"
    then have "of_char (char_of b) = (of_char CHR '' '' :: nat)" by simp
    with that False show False by simp
  qed
  then have same: "quote_byte '' '' b = quote_byte [] b"
    by (auto simp: quote_byte_def)
  have "map (\<lambda>c. if c = CHR '' '' then CHR ''+'' else c) (quote_byte [] b) = quote_byte [] b"
    using quote_byte_no_space[OF assms] by (intro map_idI) auto
  with same False show ?thesis by (simp add: quote_plus_byte_def)
qed

text \<open>\<open>quote_plus\<close> works byte by byte on the UTF-8 encoding.\<close>

lemma quote_plus_bytes:
  "quote_plus s = concat (map quote_plus_byte (concat (map utf8 s)))"
proof (cases "CHR '' '' \<in> set s")
  case False
  then have "32 \<notin> set (concat (map utf8 s))"
    by (auto simp: utf8_space)
  then have "\<forall>b\<in>set (concat (map utf8 s)). quote_plus_byte b = quote_byte [] b"
    by (auto simp: quote_plus_byte_def)
  then have eq: "map quote_plus_byte (concat (map utf8 s)) =
                 map (quote_byte []) (concat (map utf8 s))"
    by (intro map_cong refl) blast
  show ?thesis unfolding eq using False by (simp add: quote_plus_def quote_def)
next
  case True
  have "\<forall>b\<in>set (concat (map utf8 s)). b < 256"
    by (auto dest: utf8_bytes_lt_256)
  then have eq: "map quote_plus_byte (concat (map utf8 s)) =
        map (map (\<lambda>c. if c = CHR '' '' then CHR ''+'' else c) \<circ> quote_byte '' '')
          (concat (map utf8 s))"
    by (intro map_cong refl) (auto simp: quote_byte_space_safe)
  show ?thesis unfolding eq using True
    by (simp add: quote_plus_def quote_def map_concat comp_def)
qed

lemma quote_plus_no_space:
  "CHR '' '' \<notin> set (quote_plus s) \<and> CHR ''/'' \<notin> set (quote_plus s)"
  using quote_plus_byte_no_space
  by (auto simp: quote_plus_bytes dest!: utf8_bytes_lt_256)

lemma unquote_quote_plus_byte:
  assumes "b < 256"
  shows "unquote_to_bytes (quote_plus_byte b @ rest) = b # unquote_to_bytes rest"
proof (cases "b = 32")
  case True
  then show ?thesis by (simp add: quote_plus_byte_def)
next
  case False
  show ?thesis
  proof (cases "b < 128 \<and> char_of b \<in> set (always_safe @ [])")
    case True
    then have q: "quote_plus_byte b = [char_of b]"
      using False by (simp add: quote_plus_byte_def quote_byte_def)
    from True have "char_of b \<in> set always_safe" by simp
    from always_safe_not_special[OF this] assms show ?thesis
      by (simp add: q)
  next
    case no: False
    then have q: "quote_plus_byte b = [CHR ''%'', hex_digit (b div 16), hex_digit (b mod 16)]"
      using False by (auto simp add: quote_plus_byte_def quote_byte_def)
    have "b div 16 < 16" "b mod 16 < 16" using assms by simp_all
    from hex_value_digit[OF this(1)] hex_value_digit[OF this(2)] show ?thesis
      by (simp add: q)
  qed
qed

lemma unquote_quote_plus_bytes:
  "\<forall>b\<in>set bs. b < 256 \<Longrightarrow> unquote_to_bytes (concat (map quote_plus_byte bs)) = bs"
  by (induction bs) (simp_all add: unquote_quote_plus_byte)

lemma utf8_decode_utf8: "utf8_decode (utf8 c @ rest) = c # utf8_decode rest"
proof (cases "of_char c < (128::nat)")
  case True
  then show ?thesis by (cases rest) (simp_all add: utf8_def)
next
  case False
  have "(of_char c :: nat) div 64 * 64 + of_char c mod 64 = of_char c" by simp
  with False show ?thesis by (simp add: utf8_def Let_def)
qed

lemma utf8_decode_concat: "utf8_decode (concat (map utf8 s)) = s"
  by (induction s) (simp_all add: utf8_decode_utf8)

text \<open>Decoding the quoted key gives the key back.\<close>

lemma unquote_plus_quote_plus: "unquote_plus (quote_plus s) = s"
proof -
  have "\<forall>b\<in>set (concat (map utf8 s)). b < 256"
    by (auto dest: utf8_bytes_lt_256)
  then show ?thesis
    by (simp add: unquote_plus_def quote_plus_bytes unquote_quote_plus_bytes utf8_decode_concat)
qed

lemma quote_plus_example:
  "quote_plus ''my stream/1/build.log'' = ''my+stream%2F1%2Fbuild.log''"
  by code_simp

lemma get_logs_key_cached:
  assumes "build_details_attr (this s) = Some d" "logs d = Some li" "streamName li = Some st"
  shows "get_logs_key env s = (Inr (st @ ''/build.log''), s)"
  using assms by (simp add: get_logs_key_def get_build_details_cached)

text \<open>\<open>copy_logs\<close> writes at no other key than \<open><streamName>/build.log\<close>.\<close>

lemma copy_logs_bucket_other:
  assumes run: "get_build_details env s = (Inr d, s1)"
    and logs: "logs d = Some li" "streamName li = Some st"
    and other: "k' \<noteq> st @ ''/build.log''"
  shows "bucket (snd (copy_logs env s)) k' = bucket s k'"
proof (cases "groupName li")
  case None
  with get_build_details_keeps[of env s] run logs show ?thesis
    by (simp add: copy_logs_def)
next
  case (Some g)
  let ?s2 = "s1\<lparr>calls := calls s1 @ [FilterLogEvents g [st]]\<rparr>"
  have cached: "build_details_attr (this ?s2) = Some d"
    using get_build_details_Inr[OF run] by simp
  have b: "bucket s1 = bucket s"
    using get_build_details_keeps[of env s] run by simp
  show ?thesis
    using other
    by (simp add: copy_logs_def run logs Some get_logs_key_cached[OF cached logs] b Let_def
             split: option.splits sum.splits)
qed

text \<open>
  Claim C4. For every build whose details give a \<open>logs.streamName\<close>, \<open>get_logs_url\<close>
  returns the configured endpoint, then \<open>?key=\<close>, then the storage key
  \<open><streamName>/build.log\<close> quoted by \<open>quote_plus\<close>. The quoted key contains neither a
  space nor a slash (a space is written \<open>+\<close>, a slash \<open>%2F\<close>), decoding it gives the key
  back, and the key is the only one at which \<open>copy_logs\<close> writes. For the stream
  \<open>my stream/1\<close> the query value is \<open>my+stream%2F1%2Fbuild.log\<close>.
\<close>

theorem get_logs_url_key:
  assumes run: "get_build_details env s = (Inr d, s1)"
    and logs: "logs d = Some li" "streamName li = Some st"
  shows "get_logs_url env s =
           (Inr (BUILD_LOGS_API_ENDPOINT env @ ''?key='' @ quote_plus (st @ ''/build.log'')), s1) \<and>
         unquote_plus (quote_plus (st @ ''/build.log'')) = st @ ''/build.log'' \<and>
         CHR '' '' \<notin> set (quote_plus (st @ ''/build.log'')) \<and>
         CHR ''/'' \<notin> set (quote_plus (st @ ''/build.log'')) \<and>
         (\<forall>k'. k' \<noteq> st @ ''/build.log'' \<longrightarrow> bucket (snd (copy_logs env s)) k' = bucket s k') \<and>
         (st = ''my stream/1'' \<longrightarrow>
            quote_plus (st @ ''/build.log'') = ''my+stream%2F1%2Fbuild.log'')"
proof -
  have url: "get_logs_url env s =
           (Inr (BUILD_LOGS_API_ENDPOINT env @ ''?key='' @ quote_plus (st @ ''/build.log'')), s1)"
    by (simp add: get_logs_url_def get_logs_key_def run logs)
  have ex: "quote_plus (st @ ''/build.log'') = ''my+stream%2F1%2Fbuild.log''"
    if "st = ''my stream/1''"
    using that quote_plus_example by simp
  from url ex unquote_plus_quote_plus quote_plus_no_space copy_logs_bucket_other[OF run logs]
  show ?thesis by blast
qed

theorem get_logs_url_key_witness:
  "streamName ex_logs = Some ''my stream/1'' \<and>
   get_logs_url aws_plain ex_state =
     (Inr ''https://logs.example.com/prod?key=my+stream%2F1%2Fbuild.log'', ex_state_fetched) \<and>
   unquote_plus ''my+stream%2F1%2Fbuild.log'' = ''my stream/1/build.log''"
proof -
  have logs: "logs ex_plain = Some ex_logs" by (simp add: ex_defs)
  have st: "streamName ex_logs = Some ''my stream/1''" by (simp add: ex_defs)
  have ep: "BUILD_LOGS_API_ENDPOINT aws_plain = ''https://logs.example.com/prod''"
    by (simp add: ex_defs)
  note key = get_logs_url_key[OF run_plain logs st]
  from key have q: "quote_plus (''my stream/1'' @ ''/build.log'') = ''my+stream%2F1%2Fbuild.log''"
    by blast
  from key have "unquote_plus (quote_plus (''my stream/1'' @ ''/build.log'')) =
                   ''my stream/1'' @ ''/build.log''"
    by blast
  then have u: "unquote_plus ''my+stream%2F1%2Fbuild.log'' = ''my stream/1/build.log''"
    unfolding q by simp
  from key have "get_logs_url aws_plain ex_state =
      (Inr (BUILD_LOGS_API_ENDPOINT aws_plain @ ''?key='' @
            quote_plus (''my stream/1'' @ ''/build.log'')), ex_state_fetched)"
    by blast
  then have "get_logs_url aws_plain ex_state =
     (Inr ''https://logs.example.com/prod?key=my+stream%2F1%2Fbuild.log'', ex_state_fetched)"
    unfolding q ep by simp
  with st u show ?thesis by simp
qed

subsection \<open>C5: copying the logs\<close>

lemma event_messages_present:
  "event_messages (map (\<lambda>m. \<lparr>message = Some m\<rparr>) ms) = Inr ms"
  by (induction ms) simp_all

lemma page_messages_present:
  "page_messages (map (\<lambda>ms. Inr \<lparr>events = Some (map (\<lambda>m. \<lparr>message = Some m\<rparr>) ms)\<rparr>) mss) =
     Inr (concat mss)"
  by (induction mss) (simp_all add: event_messages_present)

text \<open>
  Claim C5. For every build whose details give \<open>logs.groupName\<close> and \<open>logs.streamName\<close>,
  when the paginator yields pages whose events all have a message (\<open>mss\<close> lists the
  messages page by page), \<open>copy_logs\<close> asks the log service for that group and stream and
  then puts one object: key \<open><streamName>/build.log\<close>, content type \<open>text/plain\<close>, body the
  messages concatenated in page order, then in-page order, with nothing between them.
  When the bucket accepts the object, \<open>copy_logs\<close> returns and the bucket holds the
  object at that key.
\<close>

theorem copy_logs_writes:
  assumes run: "get_build_details env s = (Inr d, s1)"
    and logs: "logs d = Some li" "groupName li = Some g" "streamName li = Some st"
    and pages: "paginate env g [st] =
       map (\<lambda>ms. Inr \<lparr>events = Some (map (\<lambda>m. \<lparr>message = Some m\<rparr>) ms)\<rparr>) mss"
  shows "calls (snd (copy_logs env s)) =
           calls s1 @ [FilterLogEvents g [st],
                       PutObject (st @ ''/build.log'') (concat (concat mss)) ''text/plain''] \<and>
         (put_object env (st @ ''/build.log'') (concat (concat mss)) ''text/plain'' = None \<longrightarrow>
            fst (copy_logs env s) = Inr () \<and>
            bucket (snd (copy_logs env s)) =
              (bucket s)(st @ ''/build.log'' \<mapsto>
                 \<lparr>Body = concat (concat mss), ContentType = ''text/plain''\<rparr>))"
proof -
  let ?s2 = "s1\<lparr>calls := calls s1 @ [FilterLogEvents g [st]]\<rparr>"
  have cached: "build_details_attr (this ?s2) = Some d"
    using get_build_details_Inr[OF run] by simp
  have b: "bucket s1 = bucket s"
    using get_build_details_keeps[of env s] run by simp
  show ?thesis
    by (simp add: copy_logs_def run logs pages page_messages_present
          get_logs_key_cached[OF cached logs(1,3)] b Let_def split: option.splits)
qed

text \<open>The pages \<open>["A: ", "B\n"]\<close> and \<open>["C: ", "D\n"]\<close> give the body \<open>"A: B\nC: D\n"\<close>.\<close>

theorem copy_logs_writes_witness:
  "fst (copy_logs aws_plain ex_state) = Inr () \<and>
   bucket (snd (copy_logs aws_plain ex_state)) ''my stream/1/build.log'' =
     Some \<lparr>Body = ''A: B'' @ [CHR 0x0A] @ ''C: D'' @ [CHR 0x0A], ContentType = ''text/plain''\<rparr> \<and>
   calls (snd (copy_logs aws_plain ex_state)) =
     [BatchGetBuilds [''proj:1''],
      FilterLogEvents ''/aws/codebuild/proj'' [''my stream/1''],
      PutObject ''my stream/1/build.log'' (''A: B'' @ [CHR 0x0A] @ ''C: D'' @ [CHR 0x0A])
        ''text/plain'']"
proof -
  have logs: "logs ex_plain = Some ex_logs" by (simp add: ex_defs)
  have g: "groupName ex_logs = Some ''/aws/codebuild/proj''" by (simp add: ex_defs)
  have st: "streamName ex_logs = Some ''my stream/1''" by (simp add: ex_defs)
  have pages: "paginate aws_plain ''/aws/codebuild/proj'' [''my stream/1''] =
       map (\<lambda>ms. Inr \<lparr>events = Some (map (\<lambda>m. \<lparr>message = Some m\<rparr>) ms)\<rparr>)
         [[''A: '', [CHR ''B'', CHR 0x0A]], [''C: '', [CHR ''D'', CHR 0x0A]]]"
    by (simp add: ex_defs)
  have put: "put_object aws_plain k b c = None" for k b c
    by (simp add: ex_defs)
  from copy_logs_writes[OF run_plain logs g st pages] put
  show ?thesis by (simp add: ex_state_fetched_def ex_state_def)
qed

subsection \<open>C6: the details are fetched once\<close>

text \<open>
  Claim C6. For every \<open>Build\<close> whose details are not yet set and whose build service
  answers the build id with a build, the first call of \<open>get_build_details\<close> asks the
  service for that one id, stores the first build of the answer and runs batch
  resolution on it (which changes at most its \<open>sourceVersion\<close>). Whether batch resolution
  returns or raises, the details stay stored: every later call returns them and leaves
  the state, and so the trace of service calls, as it is. After two calls the trace holds
  exactly one build-details call more than before.
\<close>

theorem build_details_memoized:
  assumes fresh: "build_details_attr (this s) = None"
    and resp: "batch_get_builds env [id' (this s)] = Inr resp" "builds resp = Some (d # ds)"
  shows "\<exists>d' sv.
           d' = d\<lparr>build_details.sourceVersion := sv\<rparr> \<and>
           build_details_attr (this (snd (get_build_details env s))) = Some d' \<and>
           (fst (get_build_details env s) = Inr d' \<or>
            (\<exists>e. fst (get_build_details env s) = Inl e)) \<and>
           snd (get_build_details env s) =
             snd (process_batch env
                   (set_details d (s\<lparr>calls := calls s @ [BatchGetBuilds [id' (this s)]]\<rparr>))) \<and>
           get_build_details env (snd (get_build_details env s)) =
             (Inr d', snd (get_build_details env s)) \<and>
           (\<forall>n. ((\<lambda>t. snd (get_build_details env t)) ^^ n) (snd (get_build_details env s)) =
                snd (get_build_details env s)) \<and>
           filter is_batch_get_builds
              (calls (snd (get_build_details env (snd (get_build_details env s))))) =
             filter is_batch_get_builds (calls s) @ [BatchGetBuilds [id' (this s)]]"
proof -
  let ?s0 = "set_details d (s\<lparr>calls := calls s @ [BatchGetBuilds [id' (this s)]]\<rparr>)"
  obtain res s1 where run: "get_build_details env s = (res, s1)"
    by (cases "get_build_details env s")
  have s1: "s1 = snd (process_batch env ?s0)"
    using get_build_details_fresh_snd[OF fresh resp] run by simp
  have attr: "build_details_attr (this ?s0) = Some d" by simp
  from process_batch_effect[OF attr, of env] s1 obtain sv where
    cached: "build_details_attr (this s1) = Some (d\<lparr>build_details.sourceVersion := sv\<rparr>)"
    and trace: "filter is_batch_get_builds (calls s1) =
                filter is_batch_get_builds (calls s) @ [BatchGetBuilds [id' (this s)]]"
    by (auto simp: is_batch_get_builds_def)
  let ?d' = "d\<lparr>build_details.sourceVersion := sv\<rparr>"
  have res: "res = Inr ?d' \<or> (\<exists>e. res = Inl e)"
  proof (cases res)
    case (Inl e)
    then show ?thesis by simp
  next
    case (Inr x)
    with get_build_details_Inr[of env s x s1] run cached show ?thesis by simp
  qed
  have again: "get_build_details env s1 = (Inr ?d', s1)"
    by (rule get_build_details_cached[OF cached])
  have iter: "((\<lambda>t. snd (get_build_details env t)) ^^ n) s1 = s1" for n
    by (induction n) (simp_all add: again)
  show ?thesis
    unfolding run using cached res s1 again iter trace
    by (intro exI[of _ ?d'] exI[of _ sv]) simp
qed

text \<open>Two calls on a new build: one call of the build service in the trace.\<close>

theorem build_details_memoized_witness:
  "get_build_details aws_plain ex_state = (Inr ex_plain, ex_state_fetched) \<and>
   get_build_details aws_plain ex_state_fetched = (Inr ex_plain, ex_state_fetched) \<and>
   calls (snd (get_build_details aws_plain (snd (get_build_details aws_plain ex_state)))) =
     [BatchGetBuilds [''proj:1'']]"
proof -
  have fresh: "build_details_attr (this ex_state) = None" by (simp add: ex_defs)
  have resp: "batch_get_builds aws_plain [id' (this ex_state)] = Inr \<lparr>builds = Some [ex_plain]\<rparr>"
    by (simp add: ex_defs)
  have builds: "builds \<lparr>builds = Some [ex_plain]\<rparr> = Some (ex_plain # [])" by simp
  from build_details_memoized[OF fresh resp builds]
  have "get_build_details aws_plain (snd (get_build_details aws_plain ex_state)) =
          (Inr ex_plain, snd (get_build_details aws_plain ex_state))"
    by (auto simp: run_plain ex_state_fetched_def)
  then show ?thesis
    by (simp add: run_plain ex_state_fetched_def)
qed

subsection \<open>C7: the pull request id\<close>

lemma int_of_digits_snoc:
  "int_of_digits (ds @ [c]) = 10 * int_of_digits ds + (int (of_char c) - 48)"
  by (simp add: int_of_digits_def)

text \<open>\<open>int_of_digits\<close> reads the digits in base ten.\<close>

lemma int_of_digits_positional:
  "int_of_digits ds = (\<Sum>i<length ds. (int (of_char (ds ! i)) - 48) * 10 ^ (length ds - Suc i))"
proof (induction ds rule: rev_induct)
  case Nil
  show ?case by (simp add: int_of_digits_def)
next
  case (snoc c ds)
  have "(\<Sum>i<length ds. (int (of_char ((ds @ [c]) ! i)) - 48) * 10 ^ (length ds - i)) =
        (\<Sum>i<length ds. 10 * ((int (of_char (ds ! i)) - 48) * 10 ^ (length ds - Suc i)))"
  proof (rule sum.cong)
    fix i assume "i \<in> {..<length ds}"
    then have i: "i < length ds" by simp
    then have "length ds - i = Suc (length ds - Suc i)" by simp
    with i show "(int (of_char ((ds @ [c]) ! i)) - 48) * 10 ^ (length ds - i) =
                 10 * ((int (of_char (ds ! i)) - 48) * 10 ^ (length ds - Suc i))"
      by (simp add: nth_append)
  qed simp
  then show ?case
    by (simp add: int_of_digits_snoc snoc.IH sum_distrib_left)
qed

lemma re_match_pr_decompose:
  assumes "s = ''pr/'' @ ds @ rest" "ds \<noteq> []" "\<forall>c\<in>set ds. is_digit c"
    and "rest = [] \<or> \<not> is_digit (hd rest)"
  shows "re_match_pr s = Some ds"
proof -
  have "takeWhile is_digit rest = []"
    using assms(4) by (cases rest) auto
  then have "takeWhile is_digit (ds @ rest) = ds"
    using assms(3) by simp
  with assms(1,2) show ?thesis
    by (simp add: re_match_pr_def)
qed

lemma re_match_pr_None:
  assumes "\<nexists>ds rest. s = ''pr/'' @ ds @ rest \<and> ds \<noteq> [] \<and> (\<forall>c\<in>set ds. is_digit c)"
  shows "re_match_pr s = None"
proof (rule ccontr)
  assume "re_match_pr s \<noteq> None"
  then have pre: "take 3 s = ''pr/''" and ne: "takeWhile is_digit (drop 3 s) \<noteq> []"
    by (auto simp: re_match_pr_def Let_def split: if_splits)
  have "s = take 3 s @ takeWhile is_digit (drop 3 s) @ dropWhile is_digit (drop 3 s)"
    by simp
  with pre have "s = ''pr/'' @ takeWhile is_digit (drop 3 s) @ dropWhile is_digit (drop 3 s)"
    by simp
  moreover have "\<forall>c\<in>set (takeWhile is_digit (drop 3 s)). is_digit c"
    by (auto dest: set_takeWhileD)
  ultimately show False using assms ne by blast
qed

lemma re_match_pr_42: "re_match_pr ''pr/42'' = Some ''42''"
  by (simp add: re_match_pr_def is_digit_def)

lemma re_match_pr_hash: "re_match_pr ''a1b2c3'' = None"
  by (simp add: re_match_pr_def)

lemma int_of_digits_42: "int_of_digits ''42'' = 42"
  by (simp add: int_of_digits_def)

text \<open>
  Claim C7. For every build whose details are obtained, with \<open>sv\<close> their \<open>sourceVersion\<close>
  (the batch's one after batch resolution; the empty string when there is none):
  when \<open>sv\<close> is \<open>pr/\<close>, then a longest non-empty run \<open>ds\<close> of digits, then anything,
  \<open>get_pr_id\<close> returns the integer that \<open>ds\<close> writes in base ten; when \<open>sv\<close> does not start
  with \<open>pr/\<close> and a digit, it returns none. So \<open>pr/42\<close> gives 42 and \<open>a1b2c3\<close> gives none.
  \<open>is_pr_build\<close> returns true exactly when \<open>get_pr_id\<close> returns a value.
\<close>

theorem get_pr_id_pattern:
  assumes run: "get_build_details env s = (Inr d, s')"
    and sv: "sv = (case build_details.sourceVersion d of None \<Rightarrow> [] | Some v \<Rightarrow> v)"
  shows "(\<forall>ds rest. sv = ''pr/'' @ ds @ rest \<and> ds \<noteq> [] \<and> (\<forall>c\<in>set ds. is_digit c) \<and>
                    (rest = [] \<or> \<not> is_digit (hd rest)) \<longrightarrow>
            get_pr_id env s = (Inr (Some (int_of_digits ds)), s') \<and>
            int_of_digits ds =
              (\<Sum>i<length ds. (int (of_char (ds ! i)) - 48) * 10 ^ (length ds - Suc i))) \<and>
         ((\<nexists>ds rest. sv = ''pr/'' @ ds @ rest \<and> ds \<noteq> [] \<and> (\<forall>c\<in>set ds. is_digit c)) \<longrightarrow>
            get_pr_id env s = (Inr None, s')) \<and>
         (sv = ''pr/42'' \<longrightarrow> get_pr_id env s = (Inr (Some 42), s')) \<and>
         (sv = ''a1b2c3'' \<longrightarrow> get_pr_id env s = (Inr None, s')) \<and>
         (\<forall>r. get_pr_id env s = (Inr r, s') \<longrightarrow> is_pr_build env s = (Inr (r \<noteq> None), s'))"
proof -
  have id: "get_pr_id env s =
      (case re_match_pr sv of None \<Rightarrow> (Inr None, s')
       | Some ds \<Rightarrow> (Inr (Some (int_of_digits ds)), s'))"
    by (simp add: get_pr_id_def run sv)
  have a: "get_pr_id env s = (Inr (Some (int_of_digits ds)), s')"
    if "sv = ''pr/'' @ ds @ rest" "ds \<noteq> []" "\<forall>c\<in>set ds. is_digit c"
       "rest = [] \<or> \<not> is_digit (hd rest)" for ds rest
    using re_match_pr_decompose[OF that] by (simp add: id)
  have b: "get_pr_id env s = (Inr None, s')"
    if "\<nexists>ds rest. sv = ''pr/'' @ ds @ rest \<and> ds \<noteq> [] \<and> (\<forall>c\<in>set ds. is_digit c)"
    using re_match_pr_None[OF that] by (simp add: id)
  have c: "get_pr_id env s = (Inr (Some 42), s')" if "sv = ''pr/42''"
    using that by (simp add: id re_match_pr_42 int_of_digits_42)
  have d: "get_pr_id env s = (Inr None, s')" if "sv = ''a1b2c3''"
    using that by (simp add: id re_match_pr_hash)
  have e: "is_pr_build env s = (Inr (r \<noteq> None), s')" if "get_pr_id env s = (Inr r, s')" for r
    using that by (simp add: is_pr_build_def)
  from a b c d e int_of_digits_positional show ?thesis by blast
qed

theorem get_pr_id_pattern_witness:
  "build_details.sourceVersion ex_plain = Some ''pr/42'' \<and>
   get_pr_id aws_plain ex_state = (Inr (Some 42), ex_state_fetched) \<and>
   is_pr_build aws_plain ex_state = (Inr True, ex_state_fetched)"
proof -
  have sv: "''pr/42'' = (case build_details.sourceVersion ex_plain of None \<Rightarrow> [] | Some v \<Rightarrow> v)"
    by (simp add: ex_defs)
  have "build_details.sourceVersion ex_plain = Some ''pr/42''" by (simp add: ex_defs)
  with get_pr_id_pattern[OF run_plain sv] show ?thesis by simp
qed

subsection \<open>C8: the commit id\<close>

text \<open>
  Claim C8. For every build whose details are obtained, \<open>commit_id\<close> returns their
  \<open>resolvedSourceVersion\<close> as it is, and raises \<open>KeyError\<close> when they have none. The field
  is the one of the build that the service returned: batch resolution does not touch it.
\<close>

theorem commit_id_verbatim:
  assumes run: "get_build_details env s = (Inr d', s')"
  shows "commit_id env s =
           (case resolvedSourceVersion d' of None \<Rightarrow> Inl KeyError | Some v \<Rightarrow> Inr v, s') \<and>
         (\<forall>resp d ds. build_details_attr (this s) = None \<and>
              batch_get_builds env [id' (this s)] = Inr resp \<and> builds resp = Some (d # ds) \<longrightarrow>
            resolvedSourceVersion d' = resolvedSourceVersion d)"
proof -
  have same: "resolvedSourceVersion d' = resolvedSourceVersion d"
    if fresh: "build_details_attr (this s) = None"
      and resp: "batch_get_builds env [id' (this s)] = Inr resp" "builds resp = Some (d # ds)"
    for resp d ds
  proof -
    let ?s0 = "set_details d (s\<lparr>calls := calls s @ [BatchGetBuilds [id' (this s)]]\<rparr>)"
    have attr: "build_details_attr (this ?s0) = Some d" by simp
    have "s' = snd (process_batch env ?s0)"
      using get_build_details_fresh_snd[OF fresh resp] run by simp
    with process_batch_effect[OF attr, of env] get_build_details_Inr[OF run]
    show ?thesis by auto
  qed
  have "commit_id env s =
           (case resolvedSourceVersion d' of None \<Rightarrow> Inl KeyError | Some v \<Rightarrow> Inr v, s')"
    by (simp add: commit_id_def run split: option.splits)
  with same show ?thesis by blast
qed

theorem commit_id_verbatim_witness:
  "resolvedSourceVersion ex_plain = Some ''a1b2c3'' \<and>
   commit_id aws_plain ex_state = (Inr ''a1b2c3'', ex_state_fetched) \<and>
   resolvedSourceVersion ex_unversioned = None \<and>
   fst (commit_id aws_unversioned ex_state) = Inl KeyError"
proof -
  have v: "resolvedSourceVersion ex_plain = Some ''a1b2c3''" by (simp add: ex_defs)
  have v': "resolvedSourceVersion ex_unversioned = None" by (simp add: ex_defs)
  from commit_id_verbatim[OF run_plain] commit_id_verbatim[OF run_unversioned] v v'
  show ?thesis by simp
qed

subsection \<open>C9: a matching group without a build status\<close>

text \<open>
  Claim C9. When the first group that matches this build's arn has an identifier and its
  \<open>currentBuildSummary\<close> has no \<open>buildStatus\<close>, \<open>KeyError\<close> leaves detail resolution; in
  the state at that point \<open>group_identifier\<close> is already the group's identifier and
  \<open>status\<close> is still what it was.
\<close>

theorem group_status_missing:
  assumes fresh: "build_details_attr (this s) = None"
    and resp: "batch_get_builds env [id' (this s)] = Inr resp" "builds resp = Some (d # ds)"
    and barn: "buildBatchArn d = Some barn"
    and bid: "split CHR ''/'' barn = x # bid # rest"
    and batch: "batch_get_build_batches env [bid] = Inr r" "buildBatches r = Some (bt # bts)"
    and sv: "build_batch.sourceVersion bt = Some sv"
    and gs: "buildGroups bt = Some gs"
    and arn: "build_details.arn d = Some a"
    and g: "find (group_matches a) gs = Some g"
    and ident: "identifier g = Some i"
    and cbs: "currentBuildSummary g = Some cbs" "buildStatus cbs = None"
  shows "fst (get_build_details env s) = Inl KeyError \<and>
         group_identifier (this (snd (get_build_details env s))) = Some i \<and>
         status (this (snd (get_build_details env s))) = status (this s)"
proof -
  let ?s0 = "set_details d (s\<lparr>calls := calls s @ [BatchGetBuilds [id' (this s)]]\<rparr>)"
  have attr: "build_details_attr (this ?s0) = Some d" by simp
  note pb = process_batch_match[OF attr barn bid batch sv gs arn g ident cbs(1)]
  show ?thesis
    by (simp add: get_build_details_fresh[OF fresh resp] pb cbs(2) Let_def)
qed

theorem group_status_missing_witness:
  "fst (get_build_details
          (aws_batch (Inr \<lparr>buildBatches = Some [ex_batch_no_status]\<rparr>)) ex_state) = Inl KeyError \<and>
   group_identifier (this (snd (get_build_details
          (aws_batch (Inr \<lparr>buildBatches = Some [ex_batch_no_status]\<rparr>)) ex_state)))
     = Some ''windows'' \<and>
   status (this (snd (get_build_details
          (aws_batch (Inr \<lparr>buildBatches = Some [ex_batch_no_status]\<rparr>)) ex_state))) = ''FAILED''"
proof -
  let ?env = "aws_batch (Inr \<lparr>buildBatches = Some [ex_batch_no_status]\<rparr>)"
  have fresh: "build_details_attr (this ex_state) = None" by (simp add: ex_defs)
  have resp: "batch_get_builds ?env [id' (this ex_state)] = Inr \<lparr>builds = Some [ex_item]\<rparr>"
    by (simp add: ex_defs)
  have builds: "builds \<lparr>builds = Some [ex_item]\<rparr> = Some (ex_item # [])" by simp
  have barn: "buildBatchArn ex_item = Some ''arn:build-batch/proj:b1''"
    by (simp add: ex_defs)
  have batch: "batch_get_build_batches ?env [''proj:b1''] =
                 Inr \<lparr>buildBatches = Some [ex_batch_no_status]\<rparr>"
    by (simp add: ex_defs)
  have batches: "buildBatches \<lparr>buildBatches = Some [ex_batch_no_status]\<rparr> =
                   Some (ex_batch_no_status # [])" by simp
  have sv: "build_batch.sourceVersion ex_batch_no_status = Some ''pr/7''" by (simp add: ex_defs)
  have gs: "buildGroups ex_batch_no_status = Some [ex_group_other, ex_group_no_status]"
    by (simp add: ex_defs)
  have arn: "build_details.arn ex_item = Some ''arn:build/proj:1''" by (simp add: ex_defs)
  have g: "find (group_matches ''arn:build/proj:1'') [ex_group_other, ex_group_no_status] =
             Some ex_group_no_status"
    by (simp add: ex_defs group_matches_def)
  have ident: "identifier ex_group_no_status = Some ''windows''" by (simp add: ex_defs)
  have cbs: "currentBuildSummary ex_group_no_status =
     Some \<lparr>build_summary.arn = Some ''arn:build/proj:1'', buildStatus = None\<rparr>"
    by (simp add: ex_defs)
  have st: "buildStatus \<lparr>build_summary.arn = Some ''arn:build/proj:1'', buildStatus = None\<rparr> = None"
    by simp
  have before: "status (this ex_state) = ''FAILED''" by (simp add: ex_defs)
  from group_status_missing[OF fresh resp builds barn split_ex batch batches sv gs arn g ident cbs st]
    before
  show ?thesis by simp
qed

subsection \<open>C10: details without a source version\<close>

text \<open>
  Claim C10. For every build whose details, as \<open>get_build_details\<close> returns them, have no
  \<open>sourceVersion\<close>, \<open>get_pr_id\<close> returns none and \<open>is_pr_build\<close> returns false; neither
  raises: the pattern is matched against the empty string.
\<close>

theorem get_pr_id_no_source_version:
  assumes run: "get_build_details env s = (Inr d, s')"
    and none: "build_details.sourceVersion d = None"
  shows "get_pr_id env s = (Inr None, s') \<and> is_pr_build env s = (Inr False, s')"
  by (simp add: is_pr_build_def get_pr_id_def run none re_match_pr_def)

theorem get_pr_id_no_source_version_witness:
  "build_details.sourceVersion ex_unversioned = None \<and>
   fst (get_pr_id aws_unversioned ex_state) = Inr None \<and>
   fst (is_pr_build aws_unversioned ex_state) = Inr False"
proof -
  have none: "build_details.sourceVersion ex_unversioned = None" by (simp add: ex_defs)
  from get_pr_id_no_source_version[OF run_unversioned none] none show ?thesis by simp
qed

end
